theory Spec2Isabelle
  imports Main "HOL-Library.Sublist"
begin

section \<open>Python values used by the notebook\<close>

text \<open>
  Exceptions are values.  \<open>ValueError\<close>, \<open>IndexError\<close> and \<open>KeyError\<close> are the
  built-in exceptions the notebook's own code can raise; \<open>External\<close> carries the class name of an
  exception raised inside one of the libraries the notebook calls (yfinance, feedparser,
  sentence-transformers, faiss, openai).
\<close>

datatype exn = ValueError | IndexError | KeyError | External string

text \<open>
  \<open>xs[i]\<close> on a Python sequence: a negative index counts from the end, an index outside
  \<open>-len .. len-1\<close> raises IndexError.
\<close>

definition py_index :: "'a list \<Rightarrow> int \<Rightarrow> exn + 'a" where
  "py_index xs i =
     (if 0 \<le> i \<and> i < int (length xs) then Inr (xs ! nat i)
      else if i < 0 \<and> - int (length xs) \<le> i then Inr (xs ! nat (int (length xs) + i))
      else Inl IndexError)"

text \<open>
  \<open>xs[i:j]\<close>: each bound is shifted by \<open>len\<close> when negative and then clamped to
  \<open>0 .. len\<close>; the slice is empty when the bounds cross.  It never raises.
\<close>

definition py_slice_bound :: "int \<Rightarrow> int \<Rightarrow> int" where
  "py_slice_bound n i = (if i < 0 then max (i + n) 0 else min i n)"

definition py_slice :: "'a list \<Rightarrow> int \<Rightarrow> int \<Rightarrow> 'a list" where
  "py_slice xs i j =
     (let n = int (length xs); lo = py_slice_bound n i; hi = py_slice_bound n j
      in take (nat (hi - lo)) (drop (nat lo) xs))"

text \<open>
  \<open>range(start, stop, step)\<close>: counts up while below \<open>stop\<close> for a positive step, down
  while above \<open>stop\<close> for a negative step, and raises ValueError for step zero.
\<close>

function range_from :: "int \<Rightarrow> int \<Rightarrow> int \<Rightarrow> int list" where
  "range_from i stop step =
     (if 0 < step \<and> i < stop then i # range_from (i + step) stop step
      else if step < 0 \<and> stop < i then i # range_from (i + step) stop step
      else [])"
  by pat_completeness auto
termination
  by (relation "measure (\<lambda>(i, stop, step). nat (if 0 < step then stop - i else i - stop))") auto

declare range_from.simps [simp del]

definition py_range :: "int \<Rightarrow> int \<Rightarrow> int \<Rightarrow> exn + int list" where
  "py_range start stop step =
     (if step = 0 then Inl ValueError else Inr (range_from start stop step))"

section \<open>The chunker\<close>

text \<open>
  \<^verbatim>\<open>def chunk_text(text, chunk_size=300):
      return [text[i:i+chunk_size] for i in range(0, len(text), chunk_size)]\<close>
  The text is a sequence of characters of any kind; the chunk size is a Python integer.
\<close>

definition chunk_text :: "'a list \<Rightarrow> int \<Rightarrow> exn + 'a list list" where
  "chunk_text text chunk_size =
     (case py_range 0 (int (length text)) chunk_size of
        Inl e \<Rightarrow> Inl e
      | Inr starts \<Rightarrow> Inr (map (\<lambda>i. py_slice text i (i + chunk_size)) starts))"

definition default_chunk_size :: int where
  "default_chunk_size = 300"

text \<open>
  \<open>sep.join(parts)\<close>.
\<close>

fun py_join :: "'a list \<Rightarrow> 'a list list \<Rightarrow> 'a list" where
  "py_join sep [] = []"
| "py_join sep [x] = x"
| "py_join sep (x # y # rest) = x @ sep @ py_join sep (y # rest)"

text \<open>
  A list comprehension whose element expression may raise: the first exception ends it.
\<close>

primrec collect :: "(exn + 'a) list \<Rightarrow> exn + 'a list" where
  "collect [] = Inr []"
| "collect (r # rs) =
     (case r of
        Inl e \<Rightarrow> Inl e
      | Inr x \<Rightarrow> (case collect rs of Inl e \<Rightarrow> Inl e | Inr xs \<Rightarrow> Inr (x # xs)))"

section \<open>Subject resolution\<close>

text \<open>
  Strings are lists of 8-bit characters, read as the code points U+0000 to U+00FF.
  \<open>str.lower()\<close> on that range moves the capital letters A to Z, U+00C0 to U+00D6 and
  U+00D8 to U+00DE down by 32 and leaves every other character alone.
\<close>

definition lower_char :: "char \<Rightarrow> char" where
  "lower_char c =
     (let n = (of_char c :: nat)
      in if (65 \<le> n \<and> n \<le> 90) \<or> (192 \<le> n \<and> n \<le> 214) \<or> (216 \<le> n \<and> n \<le> 222)
         then char_of (n + 32) else c)"

definition str_lower :: "string \<Rightarrow> string" where
  "str_lower s = map lower_char s"

text \<open>
  The dictionary literal, in the order it is written: a Python 3.7+ dictionary iterates
  in insertion order (the notebook runs on Python 3.10).
\<close>

definition company_ticker_map :: "(string \<times> string) list" where
  "company_ticker_map =
     [(''microsoft'', ''MSFT''),
      (''apple'', ''AAPL''),
      (''google'', ''GOOGL''),
      (''amazon'', ''AMZN''),
      (''meta'', ''META''),
      (''tesla'', ''TSLA''),
      (''bny'', ''BK'')]"

text \<open>
  \<open>re.search(rf"{name}", s)\<close> for a pattern made of letters only, which every key of
  \<open>company_ticker_map\<close> is: the pattern is tried at each position of \<open>s\<close> from the
  left.  The result is the truth value of the match object.
\<close>

fun re_search :: "string \<Rightarrow> string \<Rightarrow> bool" where
  "re_search pat [] = (pat = [])"
| "re_search pat (c # cs) = (prefix pat (c # cs) \<or> re_search pat cs)"

text \<open>
  \<^verbatim>\<open>def get_ticker_from_question(question):
      question_lower = question.lower()
      for name in company_ticker_map:
          if re.search(rf"{name}", question_lower):
              return company_ticker_map[name], name
      return None, None\<close>
  The loop runs over the entries of the dictionary; \<open>company_ticker_map[name]\<close> is the
  second component of the entry of \<open>name\<close>.
\<close>

fun first_match :: "(string \<times> string) list \<Rightarrow> string \<Rightarrow> string option \<times> string option" where
  "first_match [] question_lower = (None, None)"
| "first_match ((name, ticker) # rest) question_lower =
     (if re_search name question_lower then (Some ticker, Some name)
      else first_match rest question_lower)"

definition get_ticker_from_question :: "string \<Rightarrow> string option \<times> string option" where
  "get_ticker_from_question question = first_match company_ticker_map (str_lower question)"

section \<open>Calls into the libraries\<close>

text \<open>
  The notebook reaches the outside world through five libraries.  Each call is a field of
  \<open>libs\<close>, a function from the call's arguments to its result or the exception it raises,
  and each call made is recorded, in order, as a \<open>call\<close>.  Vector components (floating
  point numbers in the program) are of an arbitrary type \<open>'v\<close>: the notebook only passes
  them on.

  \<^item> \<open>ticker_info t\<close>: \<open>yf.Ticker(t).info\<close>, a dictionary.
  \<^item> \<open>feed_parse url\<close>: \<open>feedparser.parse(url)['entries']\<close>, a list of dictionaries.
  \<^item> \<open>load_model name\<close>: \<open>SentenceTransformer(name)\<close>.
  \<^item> \<open>encode texts\<close>: \<open>model.encode(texts)\<close>, a list of vectors.
  \<^item> \<open>index_add d vectors\<close>: \<open>faiss.IndexFlatL2(d)\<close> followed by \<open>index.add(vectors)\<close>.
  \<^item> \<open>index_search d vectors queries k\<close>: \<open>index.search(queries, k)\<close> on that index,
    the pair \<open>(D, I)\<close> of distance rows and position rows.
  \<^item> \<open>chat_completion prompt\<close>: \<open>openai.ChatCompletion.create\<close> with model
    \<open>gpt-3.5-turbo\<close>, temperature 0.7 and the prompt as the single user message, followed by
    \<open>response['choices'][0]['message']['content']\<close>.
\<close>

datatype 'v call =
    Ticker_Info string
  | Feed_Parse string
  | Load_Model string
  | Encode "string list"
  | Index_Add nat "'v list list"
  | Index_Search "'v list list" int
  | Chat_Completion string

record 'v libs =
  ticker_info :: "string \<Rightarrow> exn + (string \<rightharpoonup> string)"
  feed_parse :: "string \<Rightarrow> exn + (string \<rightharpoonup> string) list"
  load_model :: "string \<Rightarrow> exn + unit"
  encode :: "string list \<Rightarrow> exn + 'v list list"
  index_add :: "nat \<Rightarrow> 'v list list \<Rightarrow> exn + unit"
  index_search :: "nat \<Rightarrow> 'v list list \<Rightarrow> 'v list list \<Rightarrow> int \<Rightarrow> exn + ('v list list \<times> int list list)"
  chat_completion :: "string \<Rightarrow> exn + string"

text \<open>
  A computation yields its result or exception together with the calls it made.
  \<open>and_then\<close> sequences two computations: an exception in the first skips the second.
\<close>

type_synonym ('v, 'a) run = "(exn + 'a) \<times> 'v call list"

definition returns :: "'a \<Rightarrow> ('v, 'a) run" where
  "returns x = (Inr x, [])"

definition local_step :: "exn + 'a \<Rightarrow> ('v, 'a) run" where
  "local_step r = (r, [])"

definition call_out :: "'v call \<Rightarrow> exn + 'a \<Rightarrow> ('v, 'a) run" where
  "call_out c r = (r, [c])"

definition and_then :: "('v, 'a) run \<Rightarrow> ('a \<Rightarrow> ('v, 'b) run) \<Rightarrow> ('v, 'b) run" where
  "and_then m f =
     (case m of
        (Inl e, calls) \<Rightarrow> (Inl e, calls)
      | (Inr x, calls) \<Rightarrow> (case f x of (r, calls') \<Rightarrow> (r, calls @ calls')))"

text \<open>\<open>d[key]\<close> and \<open>d.get(key, default)\<close> on a dictionary.\<close>

definition py_getitem :: "('k \<rightharpoonup> 'a) \<Rightarrow> 'k \<Rightarrow> exn + 'a" where
  "py_getitem d k = (case d k of None \<Rightarrow> Inl KeyError | Some v \<Rightarrow> Inr v)"

definition py_get :: "('k \<rightharpoonup> 'a) \<Rightarrow> 'k \<Rightarrow> 'a \<Rightarrow> 'a" where
  "py_get d k dflt = (case d k of None \<Rightarrow> dflt | Some v \<Rightarrow> v)"

section \<open>The fetchers\<close>

text \<open>
  \<^verbatim>\<open>def get_company_summary(ticker):
      stock = yf.Ticker(ticker)
      info = stock.info
      return info.get('longBusinessSummary', 'No summary available.')\<close>
\<close>

definition get_company_summary :: "'v libs \<Rightarrow> string \<Rightarrow> ('v, string) run" where
  "get_company_summary lib ticker =
     and_then (call_out (Ticker_Info ticker) (ticker_info lib ticker)) (\<lambda>info.
     returns (py_get info ''longBusinessSummary'' ''No summary available.''))"

text \<open>
  \<^verbatim>\<open>def get_yahoo_finance_news(ticker):
      url = f"https://finance.yahoo.com/rss/headline?s={ticker}"
      feed = feedparser.parse(url)
      news_texts = [entry['title'] + ". " + entry['summary'] for entry in feed['entries']]
      return news_texts\<close>
\<close>

definition news_text :: "(string \<rightharpoonup> string) \<Rightarrow> exn + string" where
  "news_text entry =
     (case py_getitem entry ''title'' of
        Inl e \<Rightarrow> Inl e
      | Inr title \<Rightarrow>
          (case py_getitem entry ''summary'' of
             Inl e \<Rightarrow> Inl e
           | Inr summary \<Rightarrow> Inr (title @ ''. '' @ summary)))"

definition get_yahoo_finance_news :: "'v libs \<Rightarrow> string \<Rightarrow> ('v, string list) run" where
  "get_yahoo_finance_news lib ticker =
     (let url = ''https://finance.yahoo.com/rss/headline?s='' @ ticker
      in and_then (call_out (Feed_Parse url) (feed_parse lib url)) (\<lambda>entries.
         local_step (collect (map news_text entries))))"

section \<open>The corpus builder\<close>

text \<open>
  \<^verbatim>\<open>def build_rag_corpus(ticker, company_name):
      summary = get_company_summary(ticker)
      summary_chunks = chunk_text(summary)
      news_articles = get_yahoo_finance_news(ticker)
      news_chunks = [chunk_text(article) for article in news_articles]
      news_chunks = [item for sublist in news_chunks for item in sublist]
      return summary_chunks + news_chunks\<close>
  Both calls of \<open>chunk_text\<close> leave the chunk size at its default.
\<close>

definition build_rag_corpus :: "'v libs \<Rightarrow> string \<Rightarrow> string option \<Rightarrow> ('v, string list) run" where
  "build_rag_corpus lib ticker company_name =
     and_then (get_company_summary lib ticker) (\<lambda>summary.
     and_then (local_step (chunk_text summary default_chunk_size)) (\<lambda>summary_chunks.
     and_then (get_yahoo_finance_news lib ticker) (\<lambda>news_articles.
     and_then (local_step (collect (map (\<lambda>article. chunk_text article default_chunk_size)
                                        news_articles))) (\<lambda>news_chunks.
     returns (summary_chunks @ concat news_chunks)))))"

section \<open>The pipeline\<close>

definition newline :: string where
  "newline = [CHR 0x0A]"

definition sorry_message :: string where
  "sorry_message = ''Sorry, I couldn't identify a company in your question.''"

text \<open>
  \<^verbatim>\<open>def retrieve_context(q):
      q_embed = model.encode([q])
      D, I = index.search(np.array(q_embed), 3)
      return "\n".join([corpus[i] for i in I[0]])\<close>
  The closure reads \<open>corpus\<close> and the index, here the dimension and the vectors added.
\<close>

definition retrieve_context ::
  "'v libs \<Rightarrow> string list \<Rightarrow> nat \<Rightarrow> 'v list list \<Rightarrow> string \<Rightarrow> ('v, string) run" where
  "retrieve_context lib corpus d embeddings q =
     and_then (call_out (Encode [q]) (encode lib [q])) (\<lambda>q_embed.
     and_then (call_out (Index_Search q_embed 3) (index_search lib d embeddings q_embed 3)) (\<lambda>(D, I).
     and_then (local_step (py_index I 0)) (\<lambda>positions.
     and_then (local_step (collect (map (py_index corpus) positions))) (\<lambda>texts.
     returns (py_join newline texts)))))"

definition make_prompt :: "string \<Rightarrow> string \<Rightarrow> string" where
  "make_prompt context question =
     ''Context:'' @ newline @ context @ newline @ newline @ ''Question: '' @ question"

text \<open>
  \<^verbatim>\<open>def run_rag_with_news(question):
      ticker, company_name = get_ticker_from_question(question)
      if not ticker:
          return "Sorry, I couldn't identify a company in your question."
      corpus = build_rag_corpus(ticker, company_name)
      model = SentenceTransformer('all-MiniLM-L6-v2')
      embeddings = model.encode(corpus)
      index = faiss.IndexFlatL2(embeddings[0].shape[0])
      index.add(np.array(embeddings))
      ...
      context = retrieve_context(question)
      prompt = f"Context:\n{context}\n\nQuestion: {question}"
      response = openai.ChatCompletion.create(...)
      return response['choices'][0]['message']['content']\<close>
  \<open>not ticker\<close> holds of \<open>None\<close> and of the empty string.
\<close>

definition run_rag_with_news :: "'v libs \<Rightarrow> string \<Rightarrow> ('v, string) run" where
  "run_rag_with_news lib question =
     (case get_ticker_from_question question of
        (None, company_name) \<Rightarrow> returns sorry_message
      | (Some ticker, company_name) \<Rightarrow>
          if ticker = [] then returns sorry_message
          else
            and_then (build_rag_corpus lib ticker company_name) (\<lambda>corpus.
            and_then (call_out (Load_Model ''all-MiniLM-L6-v2'') (load_model lib ''all-MiniLM-L6-v2'')) (\<lambda>_.
            and_then (call_out (Encode corpus) (encode lib corpus)) (\<lambda>embeddings.
            and_then (local_step (py_index embeddings 0)) (\<lambda>first_embedding.
            and_then (call_out (Index_Add (length first_embedding) embeddings)
                               (index_add lib (length first_embedding) embeddings)) (\<lambda>_.
            and_then (retrieve_context lib corpus (length first_embedding) embeddings question) (\<lambda>context.
            call_out (Chat_Completion (make_prompt context question))
                     (chat_completion lib (make_prompt context question)))))))))"

section \<open>The vector index\<close>

text \<open>
  Modelled from the spec: the index itself, \<open>faiss.IndexFlatL2\<close> with its \<open>add\<close> and
  \<open>search\<close>, is library code that the notebook calls and does not contain.  The
  definitions below follow the specification of the VectorIndex component: \<open>build\<close>
  rejects embeddings of different dimensions with DimensionMismatch; \<open>search\<close> rejects
  \<open>k \<le> 0\<close> with InvalidArgument and otherwise is the reference algorithm, an exact scan
  computing the squared Euclidean distance to every stored vector, ordered by ascending
  distance with ties broken by ascending insertion position, cut to the first \<open>k\<close>.
  Vector components are exact numbers of an ordered ring, not floating point numbers.
\<close>

datatype index_error = DimensionMismatch | InvalidArgument

text \<open>
  Modelled from the spec: the distance metric of the library's index, squared Euclidean
  distance, summed over the components two vectors share.
\<close>

definition l2_distance :: "'a::linordered_idom list \<Rightarrow> 'a list \<Rightarrow> 'a" where
  "l2_distance q e = sum_list (map (\<lambda>(x, y). (x - y) * (x - y)) (zip q e))"

text \<open>
  Modelled from the spec: the library's construction of an index, \<open>build\<close>, which keeps
  the embeddings in insertion order and fails when their dimensions differ.
\<close>

definition build :: "'a list list \<Rightarrow> index_error + 'a list list" where
  "build embeddings =
     (case embeddings of
        [] \<Rightarrow> Inr []
      | e # es \<Rightarrow> if list_all (\<lambda>x. length x = length e) es then Inr (e # es)
                  else Inl DimensionMismatch)"

text \<open>
  Modelled from the spec: the library's \<open>search\<close>, as the exact scan (every position
  with its distance to the query) sorted stably by distance and cut to \<open>k\<close>.
\<close>

definition scan :: "'a::linordered_idom list list \<Rightarrow> 'a list \<Rightarrow> (nat \<times> 'a) list" where
  "scan index q = zip [0..<length index] (map (l2_distance q) index)"

definition search :: "'a::linordered_idom list list \<Rightarrow> 'a list \<Rightarrow> int \<Rightarrow> index_error + (nat \<times> 'a) list" where
  "search index q k =
     (if k \<le> 0 then Inl InvalidArgument
      else Inr (take (nat k) (sort_key snd (scan index q))))"

section \<open>Stand-ins for the libraries\<close>

text \<open>
  Libraries that never fail, for running the pipeline on concrete inputs: the company
  profile holds the given summary, the feed holds the given (title, summary) entries, a
  text is embedded as the one-component vector of its length and the chat model gives a
  fixed answer.

  The index stands in for \<open>faiss.IndexFlatL2\<close>.  Its \<open>search\<close> always returns rows of
  \<open>k\<close> entries: the stored vectors by ascending distance, and, when fewer than \<open>k\<close>
  vectors are stored, the remaining entries filled with position \<open>-1\<close> and the largest
  single-precision number as distance.
\<close>

definition no_hit_position :: int where
  "no_hit_position = - 1"

definition no_hit_distance :: int where
  "no_hit_distance = 340282346638528859811704183484516925440"

definition fill_row :: "int \<Rightarrow> 'a \<Rightarrow> 'a list \<Rightarrow> 'a list" where
  "fill_row k filler row = row @ replicate (nat k - length row) filler"

definition flat_search ::
  "nat \<Rightarrow> int list list \<Rightarrow> int list list \<Rightarrow> int \<Rightarrow> exn + (int list list \<times> int list list)" where
  "flat_search d vectors queries k =
     (case collect (map (\<lambda>q. case search vectors q k of
                                 Inl _ \<Rightarrow> Inl (External ''AssertionError'')
                               | Inr hits \<Rightarrow> Inr hits) queries) of
        Inl e \<Rightarrow> Inl e
      | Inr rows \<Rightarrow>
          Inr (map (\<lambda>hits. fill_row k no_hit_distance (map snd hits)) rows,
               map (\<lambda>hits. fill_row k no_hit_position (map (\<lambda>hit. int (fst hit)) hits)) rows))"

definition sample_libs :: "string \<Rightarrow> (string \<times> string) list \<Rightarrow> int libs" where
  "sample_libs summary news =
     \<lparr> ticker_info = (\<lambda>ticker. Inr [''longBusinessSummary'' \<mapsto> summary]),
       feed_parse = (\<lambda>url. Inr (map (\<lambda>(title, body). [''title'' \<mapsto> title, ''summary'' \<mapsto> body]) news)),
       load_model = (\<lambda>name. Inr ()),
       encode = (\<lambda>texts. Inr (map (\<lambda>t. [int (length t)]) texts)),
       index_add = (\<lambda>d vectors. Inr ()),
       index_search = flat_search,
       chat_completion = (\<lambda>prompt. Inr ''An answer.'') \<rparr>"

section \<open>Properties of the chunker\<close>


lemma range_from_up_length:
  "0 < step \<Longrightarrow> k < length (range_from i stop step) \<longleftrightarrow> i + int k * step < stop"
proof (induction i stop step arbitrary: k rule: range_from.induct)
  case (1 i stop step)
  show ?case
  proof (cases "i < stop")
    case False
    have "0 \<le> int k * step" using \<open>0 < step\<close> by simp
    with False have "\<not> i + int k * step < stop" by linarith
    with False \<open>0 < step\<close> show ?thesis
      by (simp add: range_from.simps [of i stop step])
  next
    case True
    show ?thesis
    proof (cases k)
      case 0
      with True \<open>0 < step\<close> show ?thesis
        by (simp add: range_from.simps [of i stop step])
    next
      case (Suc m)
      have "m < length (range_from (i + step) stop step) \<longleftrightarrow> i + step + int m * step < stop"
        using "1.IH"(1) [of m] True \<open>0 < step\<close> by simp
      with True \<open>0 < step\<close> Suc show ?thesis
        by (simp add: range_from.simps [of i stop step] algebra_simps)
    qed
  qed
qed

lemma range_from_up_nth:
  "0 < step \<Longrightarrow> k < length (range_from i stop step) \<Longrightarrow>
     range_from i stop step ! k = i + int k * step"
proof (induction i stop step arbitrary: k rule: range_from.induct)
  case (1 i stop step)
  show ?case
  proof (cases "i < stop")
    case False
    with "1.prems" show ?thesis
      by (simp add: range_from.simps [of i stop step])
  next
    case True
    show ?thesis
    proof (cases k)
      case 0
      with True \<open>0 < step\<close> show ?thesis
        by (simp add: range_from.simps [of i stop step])
    next
      case (Suc m)
      have len: "m < length (range_from (i + step) stop step)"
        using "1.prems" True Suc by (simp add: range_from.simps [of i stop step])
      have "range_from (i + step) stop step ! m = i + step + int m * step"
        using "1.IH"(1) [of m] True \<open>0 < step\<close> len by simp
      with True \<open>0 < step\<close> Suc show ?thesis
        by (simp add: range_from.simps [of i stop step] algebra_simps)
    qed
  qed
qed

lemma range_from_down_empty:
  "step < 0 \<Longrightarrow> i \<le> stop \<Longrightarrow> range_from i stop step = []"
  by (simp add: range_from.simps [of i stop step])

lemma py_slice_window:
  "0 \<le> i \<Longrightarrow> 0 < c \<Longrightarrow> py_slice xs i (i + c) = take (nat c) (drop (nat i) xs)"
proof (cases "i + c \<le> int (length xs)")
  case True
  assume "0 \<le> i" "0 < c"
  with True show ?thesis
    by (simp add: py_slice_def py_slice_bound_def Let_def min_def)
next
  case False
  assume h: "0 \<le> i" "0 < c"
  show ?thesis
  proof (cases "i \<le> int (length xs)")
    case True
    with False h have "length xs - nat i \<le> nat c" by linarith
    with True False h show ?thesis
      by (simp add: py_slice_def py_slice_bound_def Let_def min_def)
  next
    case False
    with h show ?thesis
      by (simp add: py_slice_def py_slice_bound_def Let_def min_def)
  qed
qed

lemma concat_windows:
  "0 < c \<Longrightarrow> 0 \<le> i \<Longrightarrow>
     concat (map (\<lambda>j. py_slice xs j (j + c)) (range_from i (int (length xs)) c)) = drop (nat i) xs"
proof (induction i "int (length xs)" c rule: range_from.induct)
  case (1 i step)
  show ?case
  proof (cases "i < int (length xs)")
    case False
    with "1.prems" show ?thesis
      by (simp add: range_from.simps [of i "int (length xs)" step])
  next
    case True
    have rest: "concat (map (\<lambda>j. py_slice xs j (j + step)) (range_from (i + step) (int (length xs)) step))
                 = drop (nat (i + step)) xs"
      using "1.hyps"(1) True "1.prems" by simp
    have "nat (i + step) = nat step + nat i" using "1.prems" by linarith
    then have "take (nat step) (drop (nat i) xs) @ drop (nat (i + step)) xs = drop (nat i) xs"
      by (metis append_take_drop_id drop_drop)
    with True "1.prems" rest show ?thesis
      by (simp add: range_from.simps [of i "int (length xs)" step] py_slice_window)
  qed
qed

lemma chunk_text_starts:
  "0 < c \<Longrightarrow>
     chunk_text xs c = Inr (map (\<lambda>i. py_slice xs i (i + c)) (range_from 0 (int (length xs)) c))"
  by (simp add: chunk_text_def py_range_def)

lemma chunk_text_nth:
  assumes "0 < c" and "chunk_text xs c = Inr chunks" and "k < length chunks"
  shows "chunks ! k = take (nat c) (drop (k * nat c) xs)" and "k * nat c < length xs"
proof -
  let ?starts = "range_from 0 (int (length xs)) c"
  have chunks: "chunks = map (\<lambda>i. py_slice xs i (i + c)) ?starts"
    using assms(1,2) by (simp add: chunk_text_starts)
  then have k: "k < length ?starts" using assms(3) by simp
  then have start: "?starts ! k = int k * c"
    using range_from_up_nth [OF assms(1) k] by simp
  have pos: "0 \<le> int k * c" using assms(1) by simp
  have idx: "nat (int k * c) = k * nat c"
    using assms(1) by (simp add: nat_mult_distrib)
  show "chunks ! k = take (nat c) (drop (k * nat c) xs)"
    using chunks k start py_slice_window [OF pos assms(1), of xs] idx by simp
  have "int k * c < int (length xs)"
    using range_from_up_length [OF assms(1), of k 0 "int (length xs)"] k by simp
  then have "nat (int k * c) < length xs" using pos by linarith
  then show "k * nat c < length xs" using idx by simp
qed

text \<open>
  C1.  For a positive chunk size \<open>chunk_text\<close> returns normally, and its chunks are the
  consecutive windows of the text: chunk \<open>k\<close> is the slice of length at most
  \<open>chunk_size\<close> starting at offset \<open>k * chunk_size\<close>, so the chunks do not overlap and
  leave no gap; their concatenation in order is the text; every chunk but the last has
  length exactly \<open>chunk_size\<close>; no chunk is empty or longer than \<open>chunk_size\<close>; and the
  empty text has no chunks.
\<close>

theorem chunk_text_positive:
  assumes "0 < chunk_size"
  shows "\<exists>chunks. chunk_text xs chunk_size = Inr chunks
           \<and> concat chunks = xs
           \<and> (\<forall>k<length chunks. chunks ! k = take (nat chunk_size) (drop (k * nat chunk_size) xs))
           \<and> (\<forall>k. Suc k < length chunks \<longrightarrow> length (chunks ! k) = nat chunk_size)
           \<and> (\<forall>k<length chunks. 0 < length (chunks ! k) \<and> length (chunks ! k) \<le> nat chunk_size)
           \<and> (xs = [] \<longrightarrow> chunks = [])"
proof -
  let ?c = "nat chunk_size"
  let ?chunks = "map (\<lambda>i. py_slice xs i (i + chunk_size)) (range_from 0 (int (length xs)) chunk_size)"
  have run: "chunk_text xs chunk_size = Inr ?chunks"
    using assms by (rule chunk_text_starts)
  have whole: "concat ?chunks = xs"
    using concat_windows [OF assms, of 0 xs] by simp
  have nth: "?chunks ! k = take ?c (drop (k * ?c) xs)" if "k < length ?chunks" for k
    using chunk_text_nth(1) [OF assms run that] .
  have inside: "k * ?c < length xs" if "k < length ?chunks" for k
    using chunk_text_nth(2) [OF assms run that] .
  have full: "length (?chunks ! k) = ?c" if "Suc k < length ?chunks" for k
  proof -
    have "Suc k * ?c < length xs" using inside [OF that] .
    then have "?c \<le> length xs - k * ?c" by simp
    moreover have "k < length ?chunks" using that by simp
    ultimately show ?thesis using nth [of k] by simp
  qed
  have bounded: "0 < length (?chunks ! k) \<and> length (?chunks ! k) \<le> ?c" if "k < length ?chunks" for k
    using nth [OF that] inside [OF that] assms by simp
  have empty: "xs = [] \<longrightarrow> ?chunks = []"
    by (simp add: range_from.simps [of 0 0 chunk_size])
  show ?thesis
    using run whole nth full bounded empty by blast
qed

text \<open>The text \<open>abcdefg\<close> in chunks of three, and the empty text.\<close>

theorem chunk_text_positive_witness:
  "(0::int) < 3 \<and> chunk_text ''abcdefg'' 3 = Inr [''abc'', ''def'', ''g'']
     \<and> concat [''abc'', ''def'', ''g''] = ''abcdefg''
     \<and> chunk_text ('''' :: string) 3 = Inr []"
proof -
  have h: "(0::int) < 3" by simp
  have run: "chunk_text ''abcdefg'' 3 = Inr [''abc'', ''def'', ''g'']"
    by (simp add: chunk_text_def py_range_def range_from.simps py_slice_def py_slice_bound_def)
  from chunk_text_positive [OF h, of "''abcdefg''"] obtain chunks where
    "chunk_text ''abcdefg'' 3 = Inr chunks" and "concat chunks = ''abcdefg''"
    by blast
  with run have "concat [''abc'', ''def'', ''g''] = ''abcdefg''" by simp
  moreover from chunk_text_positive [OF h, of "[] :: string"]
  have "chunk_text ('''' :: string) 3 = Inr []" by auto
  ultimately show ?thesis using run by simp
qed

text \<open>
  C7, as the code has it.  A chunk size of zero is rejected: \<open>range\<close> raises ValueError,
  Python's exception for an argument of the right type and a wrong value, before any
  slice is taken.
\<close>

theorem chunk_text_zero: "chunk_text xs 0 = Inl ValueError"
  by (simp add: chunk_text_def py_range_def)

text \<open>
  C7, as stated, fails for a negative chunk size: \<open>chunk_text("abc", -1)\<close> raises nothing
  and returns the empty list.
\<close>

theorem chunk_text_negative_counterexample: "chunk_text ''abc'' (- 1) = Inr []"
  by (simp add: chunk_text_def py_range_def range_from.simps)

text \<open>
  C10.  For a strictly negative chunk size \<open>chunk_text\<close> returns the empty list, whatever
  the text: no exception is raised and the text is dropped.
\<close>

theorem chunk_text_negative: "chunk_size < 0 \<Longrightarrow> chunk_text xs chunk_size = Inr []"
  by (simp add: chunk_text_def py_range_def range_from_down_empty)

text \<open>A chunk size of -5.\<close>

theorem chunk_text_negative_witness:
  "(- 5 :: int) < 0 \<and> chunk_text ''some text'' (- 5) = Inr []"
  using chunk_text_negative [of "- 5" "''some text''"] by simp

section \<open>Properties of subject resolution\<close>

lemma re_search_sublist: "re_search pat s \<longleftrightarrow> sublist pat s"
  by (induction s) (simp_all add: sublist_Cons_right)

lemma sublist_map: "sublist xs ys \<Longrightarrow> sublist (map f xs) (map f ys)"
proof -
  assume "sublist xs ys"
  then obtain ps ss where "ys = ps @ xs @ ss" by (auto simp: sublist_def)
  then have "map f ys = map f ps @ map f xs @ map f ss" by simp
  then show ?thesis unfolding sublist_def by blast
qed

lemma sublist_of_map:
  assumes "sublist xs (map f ys)"
  shows "\<exists>w. sublist w ys \<and> map f w = xs"
proof -
  from assms obtain ps ss where eq: "map f ys = ps @ xs @ ss"
    by (auto simp: sublist_def)
  let ?w = "take (length xs) (drop (length ps) ys)"
  have "ys = take (length ps) ys @ ?w @ drop (length xs) (drop (length ps) ys)"
    by (simp only: append_take_drop_id)
  then have "sublist ?w ys" unfolding sublist_def by blast
  moreover have "map f ?w = take (length xs) (drop (length ps) (map f ys))"
    by (simp add: take_map drop_map)
  then have "map f ?w = xs" using eq by simp
  ultimately show ?thesis by blast
qed

lemma lowered_occurrence:
  "sublist name (str_lower question) \<longleftrightarrow> (\<exists>w. sublist w question \<and> str_lower w = name)"
  unfolding str_lower_def using sublist_map sublist_of_map by blast

lemma first_match_hit:
  "i < length m \<Longrightarrow> re_search (fst (m ! i)) q \<Longrightarrow> \<forall>j<i. \<not> re_search (fst (m ! j)) q \<Longrightarrow>
     first_match m q = (Some (snd (m ! i)), Some (fst (m ! i)))"
proof (induction m q arbitrary: i rule: first_match.induct)
  case (1 q)
  then show ?case by simp
next
  case (2 name ticker rest q)
  show ?case
  proof (cases i)
    case 0
    with "2.prems" show ?thesis by simp
  next
    case (Suc k)
    have miss: "\<not> re_search name q" using "2.prems"(3) Suc by auto
    have "first_match rest q = (Some (snd (rest ! k)), Some (fst (rest ! k)))"
    proof (rule "2.IH" [OF miss])
      show "k < length rest" using "2.prems"(1) Suc by simp
      show "re_search (fst (rest ! k)) q" using "2.prems"(2) Suc by simp
      show "\<forall>j<k. \<not> re_search (fst (rest ! j)) q"
        using "2.prems"(3) Suc by auto
    qed
    with miss Suc show ?thesis by simp
  qed
qed

lemma first_match_miss:
  "\<forall>name \<in> set (map fst m). \<not> re_search name q \<Longrightarrow> first_match m q = (None, None)"
  by (induction m q rule: first_match.induct) auto

lemma names_are_lowercase_letters:
  "\<forall>name \<in> set (map fst company_ticker_map). \<forall>c \<in> set name. 97 \<le> (of_char c :: nat) \<and> (of_char c :: nat) \<le> 122"
  by (simp add: company_ticker_map_def)

text \<open>
  C9.  The keys of \<open>company_ticker_map\<close> are tried in the order microsoft, apple,
  google, amazon, meta, tesla, bny.  A key matches when it is a contiguous part of the
  lowercased question, that is when some spelling of it, in any mix of upper and lower
  case, is a contiguous part of the question.  The result is the ticker and name of the
  first key in that order that matches, wherever the names stand in the question, and
  \<open>(None, None)\<close> when no key matches.
\<close>

theorem get_ticker_from_question_order:
  "map fst company_ticker_map =
     [''microsoft'', ''apple'', ''google'', ''amazon'', ''meta'', ''tesla'', ''bny'']
   \<and> (\<forall>name. sublist name (str_lower question) \<longleftrightarrow> (\<exists>w. sublist w question \<and> str_lower w = name))
   \<and> (\<forall>i<length company_ticker_map.
         sublist (fst (company_ticker_map ! i)) (str_lower question)
         \<and> (\<forall>j<i. \<not> sublist (fst (company_ticker_map ! j)) (str_lower question))
         \<longrightarrow> get_ticker_from_question question
               = (Some (snd (company_ticker_map ! i)), Some (fst (company_ticker_map ! i))))
   \<and> ((\<forall>name \<in> set (map fst company_ticker_map). \<not> sublist name (str_lower question))
         \<longrightarrow> get_ticker_from_question question = (None, None))"
proof -
  have keys: "map fst company_ticker_map =
     [''microsoft'', ''apple'', ''google'', ''amazon'', ''meta'', ''tesla'', ''bny'']"
    by (simp add: company_ticker_map_def)
  have hit: "get_ticker_from_question question
               = (Some (snd (company_ticker_map ! i)), Some (fst (company_ticker_map ! i)))"
    if "i < length company_ticker_map"
      and "sublist (fst (company_ticker_map ! i)) (str_lower question)"
      and "\<forall>j<i. \<not> sublist (fst (company_ticker_map ! j)) (str_lower question)" for i
    unfolding get_ticker_from_question_def
    using that by (intro first_match_hit) (simp_all add: re_search_sublist)
  have miss: "get_ticker_from_question question = (None, None)"
    if "\<forall>name \<in> set (map fst company_ticker_map). \<not> sublist name (str_lower question)"
    unfolding get_ticker_from_question_def
    using that by (intro first_match_miss) (simp add: re_search_sublist)
  show ?thesis
    using keys lowered_occurrence hit miss by blast
qed

text \<open>
  A question naming Tesla before Microsoft resolves to Microsoft, the earlier key.
\<close>

theorem get_ticker_from_question_order_witness:
  "get_ticker_from_question ''What about TESLA and Microsoft?'' = (Some ''MSFT'', Some ''microsoft'')
   \<and> sublist ''tesla'' (str_lower ''What about TESLA and Microsoft?'')
   \<and> get_ticker_from_question ''Which fruit is best?'' = (None, None)"
proof -
  let ?q = "''What about TESLA and Microsoft?''"
  have zero: "0 < length company_ticker_map"
    by (simp add: company_ticker_map_def)
  have first: "company_ticker_map ! 0 = (''microsoft'', ''MSFT'')"
    by (simp add: company_ticker_map_def)
  have ms: "sublist ''microsoft'' (str_lower ?q)"
    unfolding re_search_sublist [symmetric] by code_simp
  have ts: "sublist ''tesla'' (str_lower ?q)"
    unfolding re_search_sublist [symmetric] by code_simp
  have none: "\<forall>name \<in> set (map fst company_ticker_map). \<not> sublist name (str_lower ''Which fruit is best?'')"
    unfolding re_search_sublist [symmetric] by code_simp
  have "get_ticker_from_question ?q = (Some ''MSFT'', Some ''microsoft'')"
    using get_ticker_from_question_order [of ?q] zero first ms by force
  moreover have "get_ticker_from_question ''Which fruit is best?'' = (None, None)"
    using get_ticker_from_question_order [of "''Which fruit is best?''"] none by blast
  ultimately show ?thesis using ts by simp
qed

section \<open>Properties of the corpus builder and the pipeline\<close>

lemma and_then_Inl: "and_then (Inl e, calls) f = (Inl e, calls)"
  by (simp add: and_then_def)

lemma and_then_Inr: "and_then (Inr x, calls) f = (fst (f x), calls @ snd (f x))"
  by (simp add: and_then_def split: prod.splits)

lemma collect_map_Inr: "collect (map Inr xs) = Inr xs"
  by (induction xs) simp_all

lemma collect_map_Inr_fun: "collect (map (\<lambda>x. Inr (f x)) xs) = Inr (map f xs)"
  by (induction xs) simp_all

lemma collect_Inr_D: "collect rs = Inr xs \<Longrightarrow> rs = map Inr xs"
  by (induction rs arbitrary: xs) (auto split: sum.splits)

lemma chunk_text_default:
  "chunk_text xs default_chunk_size
     = Inr (map (\<lambda>i. py_slice xs i (i + 300)) (range_from 0 (int (length xs)) 300))"
  by (simp add: default_chunk_size_def chunk_text_starts)

lemma chunk_text_default_empty: "chunk_text [] default_chunk_size = Inr []"
  by (simp add: chunk_text_default range_from.simps [of 0 0 300])

lemma build_rag_corpus_calls:
  "set (snd (build_rag_corpus lib ticker company_name))
     \<subseteq> {Ticker_Info ticker, Feed_Parse (''https://finance.yahoo.com/rss/headline?s='' @ ticker)}"
  by (auto simp: build_rag_corpus_def get_company_summary_def get_yahoo_finance_news_def
      and_then_def call_out_def local_step_def returns_def Let_def
      split: sum.splits prod.splits)

lemma build_rag_corpus_no_chat:
  "build_rag_corpus lib ticker company_name = (r, calls) \<Longrightarrow> Chat_Completion p \<notin> set calls"
  using build_rag_corpus_calls [of lib ticker company_name] by auto

text \<open>
  C5.  When no key of \<open>company_ticker_map\<close> occurs in the lowercased question,
  \<open>run_rag_with_news\<close> returns normally with its apology message, and the list of
  library calls it made is empty: no company profile or feed was fetched, no model was
  loaded, nothing was embedded or searched and the chat model was not called.
\<close>

theorem no_subject_identified:
  assumes "\<forall>name \<in> set (map fst company_ticker_map). \<not> sublist name (str_lower question)"
  shows "run_rag_with_news lib question
           = (Inr ''Sorry, I couldn't identify a company in your question.'', [])"
proof -
  have "get_ticker_from_question question = (None, None)"
    unfolding get_ticker_from_question_def
    using assms by (intro first_match_miss) (simp add: re_search_sublist)
  then show ?thesis
    by (simp add: run_rag_with_news_def returns_def sorry_message_def)
qed

text \<open>A question that names no company, on libraries that would all answer.\<close>

theorem no_subject_identified_witness:
  "run_rag_with_news (sample_libs ''A summary.'' [(''Title'', ''Body'')]) ''Which fruit is best?''
     = (Inr ''Sorry, I couldn't identify a company in your question.'', [])"
proof -
  have "\<forall>name \<in> set (map fst company_ticker_map). \<not> sublist name (str_lower ''Which fruit is best?'')"
    unfolding re_search_sublist [symmetric] by code_simp
  then show ?thesis by (rule no_subject_identified)
qed

text \<open>
  C2, as the code has it.  \<open>build_rag_corpus\<close> takes no chunk size: it chunks at
  \<open>chunk_text\<close>'s default of 300.  When both fetchers return, the corpus is the chunks
  of the summary in order, followed by the chunks of each news item in the order the
  items were returned, and the calls made are those of the summary fetcher followed by
  those of the news fetcher.  An empty item has no chunks and adds nothing.
\<close>

theorem build_rag_corpus_order:
  assumes "get_company_summary lib ticker = (Inr summary, calls_s)"
      and "get_yahoo_finance_news lib ticker = (Inr items, calls_n)"
  shows "\<exists>summary_chunks news_chunks.
           chunk_text summary 300 = Inr summary_chunks
         \<and> map (\<lambda>item. chunk_text item 300) items = map Inr news_chunks
         \<and> build_rag_corpus lib ticker company_name
             = (Inr (summary_chunks @ concat news_chunks), calls_s @ calls_n)
         \<and> (\<forall>k<length items. items ! k = [] \<longrightarrow> news_chunks ! k = [])"
proof -
  let ?windows = "\<lambda>xs :: string. map (\<lambda>i. py_slice xs i (i + 300)) (range_from 0 (int (length xs)) 300)"
  have one: "chunk_text xs 300 = Inr (?windows xs)" for xs :: string
    using chunk_text_default [of xs] by (simp add: default_chunk_size_def)
  have all: "map (\<lambda>item. chunk_text item 300) items = map Inr (map ?windows items)"
    by (simp add: one)
  have run: "build_rag_corpus lib ticker company_name
               = (Inr (?windows summary @ concat (map ?windows items)), calls_s @ calls_n)"
    using all
    by (simp add: build_rag_corpus_def assms and_then_Inr and_then_Inl local_step_def returns_def
        default_chunk_size_def one collect_map_Inr_fun)
  have none: "\<forall>k<length items. items ! k = [] \<longrightarrow> map ?windows items ! k = []"
    by (simp add: range_from.simps [of 0 0 300])
  show ?thesis
    using one [of summary] all run none by blast
qed

text \<open>
  A summary and two news items, the second with an empty title and an empty summary.
\<close>

theorem build_rag_corpus_order_witness:
  "build_rag_corpus (sample_libs ''AB'' [(''C'', ''D''), ('''', '''')]) ''TSLA'' (Some ''tesla'')
     = (Inr [''AB'', ''C. D'', ''. ''],
        [Ticker_Info ''TSLA'', Feed_Parse ''https://finance.yahoo.com/rss/headline?s=TSLA''])"
proof -
  let ?lib = "sample_libs ''AB'' [(''C'', ''D''), ('''', '''')]"
  have s: "get_company_summary ?lib ''TSLA'' = (Inr ''AB'', [Ticker_Info ''TSLA''])"
    by code_simp
  have n: "get_yahoo_finance_news ?lib ''TSLA''
             = (Inr [''C. D'', ''. ''], [Feed_Parse ''https://finance.yahoo.com/rss/headline?s=TSLA''])"
    by code_simp
  have c1: "chunk_text ''AB'' 300 = Inr [''AB'']" by code_simp
  have c2: "map (\<lambda>item. chunk_text item 300) [''C. D'', ''. ''] = map Inr [[''C. D''], [''. '']]"
    by code_simp
  from build_rag_corpus_order [OF s n, of "Some ''tesla''"] obtain sc nc where
    "chunk_text ''AB'' 300 = Inr sc"
    "map (\<lambda>item. chunk_text item 300) [''C. D'', ''. ''] = map Inr nc"
    "build_rag_corpus ?lib ''TSLA'' (Some ''tesla'')
       = (Inr (sc @ concat nc),
          [Ticker_Info ''TSLA''] @ [Feed_Parse ''https://finance.yahoo.com/rss/headline?s=TSLA''])"
    by blast
  with c1 c2 show ?thesis by (auto simp: Cons_eq_map_conv)
qed

text \<open>
  C2, as stated, fails: no chunk size can be passed.  For the summary \<open>AB\<close> and the
  news items \<open>C. D\<close> and \<open>E. F\<close> the corpus is those three strings whole, not their
  chunks of size 1, which for the summary would be \<open>A\<close> and \<open>B\<close>.
\<close>

theorem build_rag_corpus_chunk_size_counterexample:
  "fst (build_rag_corpus (sample_libs ''AB'' [(''C'', ''D''), (''E'', ''F'')]) ''TSLA'' (Some ''tesla''))
     = Inr [''AB'', ''C. D'', ''E. F'']
   \<and> chunk_text ''AB'' 1 = Inr [''A'', ''B'']"
  by code_simp

text \<open>
  C8, as the code has it.  Nothing in the notebook catches an exception.  An exception
  raised by the summary fetcher leaves \<open>build_rag_corpus\<close> unchanged, before the news
  fetcher is called; an exception raised by the news fetcher leaves it unchanged too; no
  empty text is put in its place.  \<open>run_rag_with_news\<close> then ends with that same
  exception, having called nothing but the company profile and the feed: it does not
  turn the exception into an outcome of its own.
\<close>

theorem fetch_failure_propagates:
  "(get_company_summary lib ticker = (Inl e, calls)
      \<longrightarrow> build_rag_corpus lib ticker company_name = (Inl e, calls))
   \<and> (get_company_summary lib ticker = (Inr summary, calls_s)
        \<and> get_yahoo_finance_news lib ticker = (Inl e, calls_n)
      \<longrightarrow> build_rag_corpus lib ticker company_name = (Inl e, calls_s @ calls_n))
   \<and> (get_ticker_from_question question = (Some ticker, company_name) \<and> ticker \<noteq> []
        \<and> build_rag_corpus lib ticker company_name = (Inl e, calls)
      \<longrightarrow> run_rag_with_news lib question = (Inl e, calls)
          \<and> set calls \<subseteq> {Ticker_Info ticker,
                           Feed_Parse (''https://finance.yahoo.com/rss/headline?s='' @ ticker)})"
proof -
  have "set calls \<subseteq> {Ticker_Info ticker, Feed_Parse (''https://finance.yahoo.com/rss/headline?s='' @ ticker)}"
    if "build_rag_corpus lib ticker company_name = (Inl e, calls)"
    using build_rag_corpus_calls [of lib ticker company_name] that by simp
  then show ?thesis
    by (simp add: build_rag_corpus_def run_rag_with_news_def and_then_Inl and_then_Inr
        local_step_def chunk_text_default)
qed

text \<open>
  A company profile that cannot be reached, and a feed that cannot be reached.
\<close>

theorem fetch_failure_propagates_witness:
  "build_rag_corpus (sample_libs ''AB'' [] \<lparr>ticker_info := \<lambda>t. Inl (External ''ConnectionError'')\<rparr>)
       ''TSLA'' (Some ''tesla'')
     = (Inl (External ''ConnectionError''), [Ticker_Info ''TSLA''])
   \<and> run_rag_with_news (sample_libs ''AB'' [] \<lparr>ticker_info := \<lambda>t. Inl (External ''ConnectionError'')\<rparr>)
       ''Is Tesla a buy?''
     = (Inl (External ''ConnectionError''), [Ticker_Info ''TSLA''])
   \<and> build_rag_corpus (sample_libs ''AB'' [] \<lparr>feed_parse := \<lambda>u. Inl (External ''URLError'')\<rparr>)
       ''TSLA'' (Some ''tesla'')
     = (Inl (External ''URLError''),
        [Ticker_Info ''TSLA'', Feed_Parse ''https://finance.yahoo.com/rss/headline?s=TSLA''])"
proof -
  let ?down = "sample_libs ''AB'' [] \<lparr>ticker_info := \<lambda>t. Inl (External ''ConnectionError'')\<rparr>"
  let ?nofeed = "sample_libs ''AB'' [] \<lparr>feed_parse := \<lambda>u. Inl (External ''URLError'')\<rparr>"
  let ?url = "''https://finance.yahoo.com/rss/headline?s=TSLA''"
  have s: "get_company_summary ?down ''TSLA'' = (Inl (External ''ConnectionError''), [Ticker_Info ''TSLA''])"
    by code_simp
  have t: "get_ticker_from_question ''Is Tesla a buy?'' = (Some ''TSLA'', Some ''tesla'')"
    by code_simp
  have s2: "get_company_summary ?nofeed ''TSLA'' = (Inr ''AB'', [Ticker_Info ''TSLA''])"
    by code_simp
  have n2: "get_yahoo_finance_news ?nofeed ''TSLA'' = (Inl (External ''URLError''), [Feed_Parse ?url])"
    by code_simp
  note thm1 = fetch_failure_propagates [of ?down "''TSLA''" "External ''ConnectionError''"
      "[Ticker_Info ''TSLA'']" "Some ''tesla''" "''AB''" "[]" "[]" "''Is Tesla a buy?''"]
  note thm2 = fetch_failure_propagates [of ?nofeed "''TSLA''" "External ''URLError''"
      "[]" "Some ''tesla''" "''AB''" "[Ticker_Info ''TSLA'']" "[Feed_Parse ?url]" "''Is Tesla a buy?''"]
  have b: "build_rag_corpus ?down ''TSLA'' (Some ''tesla'')
             = (Inl (External ''ConnectionError''), [Ticker_Info ''TSLA''])"
    using thm1 s by blast
  have r: "run_rag_with_news ?down ''Is Tesla a buy?''
             = (Inl (External ''ConnectionError''), [Ticker_Info ''TSLA''])"
    using thm1 t b by simp
  have b2: "build_rag_corpus ?nofeed ''TSLA'' (Some ''tesla'')
             = (Inl (External ''URLError''), [Ticker_Info ''TSLA'', Feed_Parse ?url])"
    using thm2 s2 n2 by simp
  show ?thesis using b r b2 by blast
qed

text \<open>
  C8, as stated, fails: the pipeline has no outcome of its own for an unavailable source.
  When the company profile fails with a ConnectionError the pipeline ends with exactly
  that exception, and it ends with the very same exception when the profile and the feed
  are fine and the chat model fails with a ConnectionError.
\<close>

theorem source_failure_outcome_counterexample:
  "fst (run_rag_with_news
          (sample_libs ''AB'' [] \<lparr>ticker_info := \<lambda>t. Inl (External ''ConnectionError'')\<rparr>)
          ''Is Tesla a buy?'')
     = Inl (External ''ConnectionError'')
   \<and> fst (run_rag_with_news
          (sample_libs ''AB'' [] \<lparr>chat_completion := \<lambda>p. Inl (External ''ConnectionError'')\<rparr>)
          ''Is Tesla a buy?'')
     = Inl (External ''ConnectionError'')"
  by code_simp

text \<open>
  C6, as the code has it.  When the corpus has no fragment and the embedder returns no
  vector for it, \<open>embeddings[0]\<close> raises IndexError: the pipeline ends with that
  exception after loading the model and embedding the empty corpus, before any index is
  built or searched and before the chat model is called.
\<close>

theorem empty_corpus_index_error:
  assumes "get_ticker_from_question question = (Some ticker, company_name)" and "ticker \<noteq> []"
      and "build_rag_corpus lib ticker company_name = (Inr [], calls)"
      and "load_model lib ''all-MiniLM-L6-v2'' = Inr loaded"
      and "encode lib [] = Inr []"
  shows "run_rag_with_news lib question
           = (Inl IndexError, calls @ [Load_Model ''all-MiniLM-L6-v2'', Encode []])"
  using assms
  by (simp add: run_rag_with_news_def and_then_Inl and_then_Inr call_out_def
      local_step_def py_index_def)

text \<open>An empty summary and an empty feed.\<close>

theorem empty_corpus_index_error_witness:
  "run_rag_with_news (sample_libs '''' []) ''Is Tesla a buy?''
     = (Inl IndexError,
        [Ticker_Info ''TSLA'', Feed_Parse ''https://finance.yahoo.com/rss/headline?s=TSLA'',
         Load_Model ''all-MiniLM-L6-v2'', Encode []])"
proof -
  let ?lib = "sample_libs '''' []"
  have t: "get_ticker_from_question ''Is Tesla a buy?'' = (Some ''TSLA'', Some ''tesla'')"
    by code_simp
  have ne: "''TSLA'' \<noteq> []" by simp
  have b: "build_rag_corpus ?lib ''TSLA'' (Some ''tesla'')
             = (Inr [], [Ticker_Info ''TSLA'', Feed_Parse ''https://finance.yahoo.com/rss/headline?s=TSLA''])"
    by code_simp
  have l: "load_model ?lib ''all-MiniLM-L6-v2'' = Inr ()" by code_simp
  have e: "encode ?lib [] = Inr []" by code_simp
  show ?thesis using empty_corpus_index_error [OF t ne b l e] by simp
qed

text \<open>
  C6, as stated, fails: with an empty summary and no news the corpus is empty, and the
  pipeline ends with the built-in IndexError, not with an error that names the empty
  corpus.
\<close>

theorem empty_corpus_counterexample:
  "fst (build_rag_corpus (sample_libs '''' []) ''TSLA'' (Some ''tesla'')) = Inr []
   \<and> fst (run_rag_with_news (sample_libs '''' []) ''Is Tesla a buy?'') = Inl IndexError"
  by code_simp

lemma retrieve_context_result:
  assumes "retrieve_context lib corpus d embeddings q = (Inr context, calls)"
  shows "\<exists>q_embed D I positions texts.
           encode lib [q] = Inr q_embed
         \<and> index_search lib d embeddings q_embed 3 = Inr (D, I)
         \<and> py_index I 0 = Inr positions
         \<and> map (py_index corpus) positions = map Inr texts
         \<and> context = py_join newline texts
         \<and> calls = [Encode [q], Index_Search q_embed 3]"
  using assms unfolding retrieve_context_def
  by (auto simp: and_then_def call_out_def local_step_def returns_def
      split: prod.splits sum.splits dest: collect_Inr_D)

lemma retrieve_context_no_chat:
  "retrieve_context lib corpus d embeddings q = (r, calls) \<Longrightarrow> Chat_Completion p \<notin> set calls"
  unfolding retrieve_context_def
  by (auto simp: and_then_def call_out_def local_step_def returns_def
      split: prod.splits sum.splits)

lemma generation_called_after_retrieval:
  assumes "get_ticker_from_question question = (Some ticker, company_name)" and "ticker \<noteq> []"
      and "build_rag_corpus lib ticker company_name = (Inr corpus, calls)"
      and "load_model lib ''all-MiniLM-L6-v2'' = Inr loaded"
      and "encode lib corpus = Inr embeddings"
      and "py_index embeddings 0 = Inr first_embedding"
      and "index_add lib (length first_embedding) embeddings = Inr added"
      and "retrieve_context lib corpus (length first_embedding) embeddings question
             = (Inr retrieved, calls_r)"
  shows "run_rag_with_news lib question
           = (chat_completion lib (make_prompt retrieved question),
              calls @ [Load_Model ''all-MiniLM-L6-v2'', Encode corpus,
                       Index_Add (length first_embedding) embeddings]
                @ calls_r @ [Chat_Completion (make_prompt retrieved question)])"
  using assms
  by (simp add: run_rag_with_news_def and_then_Inr call_out_def local_step_def)

text \<open>
  The prompt of any run, whatever the libraries do.  Whenever the chat model is called,
  its prompt is the line \<open>Context:\<close>, then the texts \<open>corpus[i]\<close> for the positions
  \<open>i\<close> of the first row returned by the index search, in the order of that row and
  joined by newlines, then an empty line, then \<open>Question: \<close> followed by the question as
  it was asked.  The positions are read with Python's indexing and are not checked.
\<close>

lemma prompt_of_run:
  assumes "Chat_Completion prompt \<in> set (snd (run_rag_with_news lib question))"
  shows "\<exists>ticker company_name corpus calls embeddings first_embedding q_embed D I positions texts.
           get_ticker_from_question question = (Some ticker, company_name)
         \<and> build_rag_corpus lib ticker company_name = (Inr corpus, calls)
         \<and> encode lib corpus = Inr embeddings
         \<and> py_index embeddings 0 = Inr first_embedding
         \<and> encode lib [question] = Inr q_embed
         \<and> index_search lib (length first_embedding) embeddings q_embed 3 = Inr (D, I)
         \<and> py_index I 0 = Inr positions
         \<and> map (py_index corpus) positions = map Inr texts
         \<and> prompt = ''Context:'' @ [CHR 0x0A] @ py_join [CHR 0x0A] texts @ [CHR 0x0A, CHR 0x0A]
                      @ ''Question: '' @ question
         \<and> run_rag_with_news lib question
             = (chat_completion lib prompt,
                calls @ [Load_Model ''all-MiniLM-L6-v2'', Encode corpus,
                         Index_Add (length first_embedding) embeddings,
                         Encode [question], Index_Search q_embed 3, Chat_Completion prompt])"
proof -
  obtain ticker company_name where g: "get_ticker_from_question question = (ticker, company_name)"
    by force
  obtain t where t: "ticker = Some t" "t \<noteq> []"
    using assms g by (auto simp: run_rag_with_news_def returns_def split: option.splits if_splits)
  obtain r calls where b: "build_rag_corpus lib t company_name = (r, calls)"
    by force
  have quiet: "Chat_Completion prompt \<notin> set calls"
    using b by (rule build_rag_corpus_no_chat)
  have steps: "\<exists>corpus loaded embeddings first_embedding added context calls_r.
           r = Inr corpus
         \<and> load_model lib ''all-MiniLM-L6-v2'' = Inr loaded
         \<and> encode lib corpus = Inr embeddings
         \<and> py_index embeddings 0 = Inr first_embedding
         \<and> index_add lib (length first_embedding) embeddings = Inr added
         \<and> retrieve_context lib corpus (length first_embedding) embeddings question
             = (Inr context, calls_r)
         \<and> prompt = make_prompt context question"
    using assms g t b quiet
    by (auto simp: run_rag_with_news_def and_then_def call_out_def local_step_def
        split: prod.splits sum.splits dest: retrieve_context_no_chat)
  then obtain corpus loaded embeddings first_embedding added ctx calls_r where
    s: "r = Inr corpus" "load_model lib ''all-MiniLM-L6-v2'' = Inr loaded"
       "encode lib corpus = Inr embeddings" "py_index embeddings 0 = Inr first_embedding"
       "index_add lib (length first_embedding) embeddings = Inr added"
       "retrieve_context lib corpus (length first_embedding) embeddings question = (Inr ctx, calls_r)"
       "prompt = make_prompt ctx question"
    by blast
  from retrieve_context_result [OF s(6)] obtain q_embed D I positions texts where
    c: "encode lib [question] = Inr q_embed"
       "index_search lib (length first_embedding) embeddings q_embed 3 = Inr (D, I)"
       "py_index I 0 = Inr positions"
       "map (py_index corpus) positions = map Inr texts"
       "ctx = py_join newline texts"
       "calls_r = [Encode [question], Index_Search q_embed 3]"
    by blast
  have p: "prompt = ''Context:'' @ [CHR 0x0A] @ py_join [CHR 0x0A] texts @ [CHR 0x0A, CHR 0x0A]
                      @ ''Question: '' @ question"
    using s(7) c(5) by (simp add: make_prompt_def newline_def)
  have run: "run_rag_with_news lib question
             = (chat_completion lib prompt,
                calls @ [Load_Model ''all-MiniLM-L6-v2'', Encode corpus,
                         Index_Add (length first_embedding) embeddings,
                         Encode [question], Index_Search q_embed 3, Chat_Completion prompt])"
    using g t b s c(6)
    by (simp add: run_rag_with_news_def and_then_Inr call_out_def local_step_def)
  show ?thesis
    using g t(1) b s(1,3,4) c(1-4) p run by blast
qed

lemma last_position_read: "corpus \<noteq> [] \<Longrightarrow> py_index corpus (- 1) = Inr (last corpus)"
  by (cases corpus) (simp_all add: py_index_def last_conv_nth nat_diff_distrib')

text \<open>
  C4, at an input where the code departs from it.  The question is
  \<open>Is Tesla a buy?\<close>, the company summary is \<open>AB\<close> and the feed has one entry, so the
  corpus has the two fragments \<open>AB\<close> and \<open>C. D\<close>.  The search for three neighbours
  returns the positions 1, 0 and -1: both fragments by ascending distance, and the
  filler for the neighbour that is not there.  \<open>corpus[-1]\<close> is the last fragment, so
  the context handed to the chat model is \<open>C. D\<close>, \<open>AB\<close>, \<open>C. D\<close>: the two retrieved
  fragments and \<open>C. D\<close> a second time, not exactly the retrieved fragments.
\<close>

theorem prompt_repeats_last_fragment:
  "fst (build_rag_corpus (sample_libs ''AB'' [(''C'', ''D'')]) ''TSLA'' (Some ''tesla''))
     = Inr [''AB'', ''C. D'']
   \<and> index_search (sample_libs ''AB'' [(''C'', ''D'')]) 1 [[2], [4]] [[15]] 3
     = Inr ([[121, 169, no_hit_distance]], [[1, 0, - 1]])
   \<and> py_index [''AB'', ''C. D''] (- 1) = Inr ''C. D''
   \<and> run_rag_with_news (sample_libs ''AB'' [(''C'', ''D'')]) ''Is Tesla a buy?''
     = (Inr ''An answer.'',
        [Ticker_Info ''TSLA'', Feed_Parse ''https://finance.yahoo.com/rss/headline?s=TSLA'',
         Load_Model ''all-MiniLM-L6-v2'', Encode [''AB'', ''C. D''], Index_Add 1 [[2], [4]],
         Encode [''Is Tesla a buy?''], Index_Search [[15]] 3,
         Chat_Completion (''Context:'' @ [CHR 0x0A] @ ''C. D'' @ [CHR 0x0A] @ ''AB'' @ [CHR 0x0A]
                            @ ''C. D'' @ [CHR 0x0A, CHR 0x0A] @ ''Question: Is Tesla a buy?'')])"
  by code_simp

section \<open>Properties of the vector index\<close>

lemma insort_key_ranked:
  fixes x :: "nat \<times> 'a::linorder"
  assumes "sorted_wrt (\<lambda>a b. snd a < snd b \<or> (snd a = snd b \<and> fst a < fst b)) ys"
      and "\<forall>z\<in>set ys. fst x < fst z"
  shows "sorted_wrt (\<lambda>a b. snd a < snd b \<or> (snd a = snd b \<and> fst a < fst b)) (insort_key snd x ys)"
  using assms
proof (induction ys)
  case Nil
  then show ?case by simp
next
  case (Cons y ys)
  show ?case
  proof (cases "snd x \<le> snd y")
    case True
    have "snd x < snd z \<or> (snd x = snd z \<and> fst x < fst z)" if "z \<in> set (y # ys)" for z
    proof -
      have "snd y \<le> snd z" using Cons.prems(1) that by auto
      with True have "snd x \<le> snd z" by simp
      moreover have "fst x < fst z" using Cons.prems(2) that by auto
      ultimately show ?thesis by auto
    qed
    with True Cons.prems(1) show ?thesis by simp
  next
    case False
    have tail: "sorted_wrt (\<lambda>a b. snd a < snd b \<or> (snd a = snd b \<and> fst a < fst b)) (insort_key snd x ys)"
      using Cons.IH Cons.prems by simp
    have "snd y < snd z \<or> (snd y = snd z \<and> fst y < fst z)" if "z \<in> set (insort_key snd x ys)" for z
      using that False Cons.prems(1) by (auto simp: set_insort_key)
    with False tail show ?thesis by simp
  qed
qed

lemma sort_key_ranked:
  fixes xs :: "(nat \<times> 'a::linorder) list"
  assumes "sorted_wrt (\<lambda>a b. fst a < fst b) xs"
  shows "sorted_wrt (\<lambda>a b. snd a < snd b \<or> (snd a = snd b \<and> fst a < fst b)) (sort_key snd xs)"
  using assms
proof (induction xs)
  case Nil
  then show ?case by simp
next
  case (Cons x xs)
  have "\<forall>z\<in>set (sort_key snd xs). fst x < fst z" using Cons.prems by simp
  moreover have "sorted_wrt (\<lambda>a b. snd a < snd b \<or> (snd a = snd b \<and> fst a < fst b)) (sort_key snd xs)"
    using Cons by simp
  ultimately show ?case by (simp add: insort_key_ranked)
qed

lemma scan_positions: "map fst (scan index q) = [0..<length index]"
  by (simp add: scan_def)

lemma scan_length: "length (scan index q) = length index"
  by (simp add: scan_def)

lemma scan_entry: "(p, d) \<in> set (scan index q) \<longleftrightarrow> p < length index \<and> d = l2_distance q (index ! p)"
proof -
  have "(p, d) \<in> set (scan index q)
          \<longleftrightarrow> (\<exists>i<length index. [0..<length index] ! i = p \<and> map (l2_distance q) index ! i = d)"
    unfolding scan_def by (auto simp: in_set_zip)
  then show ?thesis by auto
qed

lemma scan_ascending: "sorted_wrt (\<lambda>a b. fst a < fst b) (scan index q)"
proof -
  have "sorted_wrt (<) (map fst (scan index q))" by (simp add: scan_positions)
  then show ?thesis by (simp add: sorted_wrt_map)
qed

lemma ranked_scan:
  "sorted_wrt (\<lambda>a b. snd a < snd b \<or> (snd a = snd b \<and> fst a < fst b)) (sort_key snd (scan index q))"
  using scan_ascending by (rule sort_key_ranked)

lemma take_below_drop:
  fixes s :: "(nat \<times> 'a::linorder) list"
  assumes "sorted (map snd s)" and "a \<in> set (take n s)" and "b \<in> set (drop n s)"
  shows "snd a \<le> snd b"
proof -
  have "sorted (map snd (take n s) @ map snd (drop n s))"
    using assms(1) by (simp flip: map_append)
  then show ?thesis using assms(2,3) by (auto simp: sorted_append)
qed

text \<open>
  C3, for the index as the specification describes it.  On an index built from
  embeddings of one dimension, \<open>search\<close> with a positive \<open>k\<close> returns
  \<open>min k size\<close> pairs of a position and the squared Euclidean distance of the vector
  stored there to the query; the distances ascend, equal distances come in ascending
  position, no position is returned twice and no vector left out is nearer than one
  returned.  The empty index gives no result, and an index smaller than \<open>k\<close> gives one
  result per stored vector.
\<close>

theorem search_contract:
  assumes "build embeddings = Inr index" and "0 < k"
  shows "\<exists>hits. search index q k = Inr hits
           \<and> length hits = min (nat k) (length embeddings)
           \<and> sorted (map snd hits)
           \<and> (\<forall>i j. i < j \<and> j < length hits \<and> snd (hits ! i) = snd (hits ! j)
                  \<longrightarrow> fst (hits ! i) < fst (hits ! j))
           \<and> (\<forall>(p, d) \<in> set hits. p < length embeddings \<and> d = l2_distance q (embeddings ! p))
           \<and> distinct (map fst hits)
           \<and> (\<forall>p<length embeddings. p \<notin> set (map fst hits)
                  \<longrightarrow> (\<forall>(p', d) \<in> set hits. d \<le> l2_distance q (embeddings ! p)))
           \<and> (embeddings = [] \<longrightarrow> hits = [])
           \<and> (length embeddings < nat k \<longrightarrow> length hits = length embeddings)"
proof -
  let ?R = "\<lambda>a b :: nat \<times> 'a. snd a < snd b \<or> (snd a = snd b \<and> fst a < fst b)"
  let ?s = "sort_key snd (scan index q)"
  let ?hits = "take (nat k) ?s"
  have same: "index = embeddings"
    using assms(1) by (auto simp: build_def split: list.splits if_splits)
  have run: "search index q k = Inr ?hits"
    using assms(2) by (simp add: search_def)
  have len: "length ?hits = min (nat k) (length index)"
    by (simp add: scan_length)
  have ranked: "sorted_wrt ?R ?hits"
    using ranked_scan [of index q] by (rule sorted_wrt_take)
  have ordered: "sorted (map snd ?hits)"
  proof -
    have "sorted_wrt (\<lambda>a b. snd a \<le> snd b) ?hits"
      using ranked by (rule sorted_wrt_mono_rel [rotated]) auto
    then show ?thesis by (simp add: sorted_wrt_map)
  qed
  have ties: "fst (?hits ! i) < fst (?hits ! j)"
    if "i < j" "j < length ?hits" "snd (?hits ! i) = snd (?hits ! j)" for i j
    using sorted_wrt_nth_less [OF ranked that(1,2)] that(3) by simp
  have entries: "p < length index \<and> d = l2_distance q (index ! p)" if "(p, d) \<in> set ?hits" for p d
  proof -
    have "(p, d) \<in> set ?s" using that by (rule in_set_takeD)
    then show ?thesis by (simp add: scan_entry)
  qed
  have dist: "distinct (map fst ?hits)"
  proof -
    have "distinct (map fst (scan index q))" by (simp add: scan_positions)
    then have "distinct (map fst ?s)" by (simp add: distinct_map)
    then have "distinct (take (nat k) (map fst ?s))" by (rule distinct_take)
    then show ?thesis by (simp only: take_map)
  qed
  have nearest: "d \<le> l2_distance q (index ! p)"
    if "p < length index" "p \<notin> set (map fst ?hits)" "(p', d) \<in> set ?hits" for p p' d
  proof -
    let ?e = "(p, l2_distance q (index ! p))"
    have "?e \<in> set ?s" using that(1) by (simp add: scan_entry)
    then have "?e \<in> set (take (nat k) ?s) \<union> set (drop (nat k) ?s)"
      by (simp flip: set_append)
    moreover have "?e \<notin> set ?hits" using that(2) by force
    ultimately have later: "?e \<in> set (drop (nat k) ?s)" by simp
    have "sorted (map snd ?s)" by (rule sorted_sort_key)
    from take_below_drop [OF this that(3) later] show ?thesis by simp
  qed
  have empty: "index = [] \<longrightarrow> ?hits = []"
    by (simp add: scan_def)
  have short: "length index < nat k \<longrightarrow> length ?hits = length index"
    by (simp add: scan_length)
  show ?thesis
    unfolding same [symmetric]
    using run len ordered ties entries dist nearest empty short
    by (intro exI [of _ ?hits]) (auto simp del: length_take)
qed

text \<open>
  An index of four vectors, two of them at distance 0 from the query: the earlier
  position comes first.  An index of two vectors and the empty index, searched for three.
\<close>

theorem search_contract_witness:
  "build [[0, 0], [1, 1], [0, 0], [3, 4 :: int]] = Inr [[0, 0], [1, 1], [0, 0], [3, 4]]
   \<and> search [[0, 0], [1, 1], [0, 0], [3, 4 :: int]] [0, 0] 3 = Inr [(0, 0), (2, 0), (1, 2)]
   \<and> length [(0, 0), (2, 0), (1 :: nat, 2 :: int)] = min (nat 3) (length [[0, 0], [1, 1], [0, 0], [3, 4 :: int]])
   \<and> sorted (map snd [(0, 0), (2, 0), (1 :: nat, 2 :: int)])
   \<and> search [[0, 0], [1, 1 :: int]] [0, 0] 3 = Inr [(0, 0), (1, 2)]
   \<and> search ([] :: int list list) [0, 0] 3 = Inr []"
proof -
  let ?E = "[[0, 0], [1, 1], [0, 0], [3, 4 :: int]]"
  have b: "build ?E = Inr ?E" by code_simp
  have k: "(0 :: int) < 3" by simp
  have run: "search ?E [0, 0] 3 = Inr [(0, 0), (2, 0), (1, 2)]" by code_simp
  have small: "search [[0, 0], [1, 1 :: int]] [0, 0] 3 = Inr [(0, 0), (1, 2)]" by code_simp
  have none: "search ([] :: int list list) [0, 0] 3 = Inr []" by code_simp
  from search_contract [OF b k, of "[0, 0]"] obtain hits where
    "search ?E [0, 0] 3 = Inr hits" "length hits = min (nat 3) (length ?E)" "sorted (map snd hits)"
    by blast
  with run have "length [(0, 0), (2, 0), (1 :: nat, 2 :: int)] = min (nat 3) (length ?E)"
    and "sorted (map snd [(0, 0), (2, 0), (1 :: nat, 2 :: int)])"
    by auto
  with b run small none show ?thesis by blast
qed

end
